theory Spec2Isabelle
  imports Complex_Main
begin

section \<open>The visual-chat playback component\<close>

text \<open>
  This theory embeds the state and the event handlers of the component
  \<^verbatim>\<open>VisualChatSimulationPage\<close> (the second document of \<^verbatim>\<open>src/unnamed/part_003\<close>).

  The component is a React function component: its state is a set of \<^verbatim>\<open>useState\<close>
  cells, its behaviour a set of handlers and effects. The embedding is by explicit state
  passing: one record holds every state cell the handlers below read or write, each
  handler is a function from the state of the render it was created in to the state after
  its queued updates, and one event of the browser (a click, a key, one firing of the
  interval, one firing of a timeout, the arrival of the reply of the end request) is one
  step. The updates that one handler or one callback queues are applied as one batch,
  which is followed by one render and the effects of that render; events are handled one
  after the other, each by the handlers of the latest render. A timeout callback is the
  exception the component is written with: it runs the \<^verbatim>\<open>moveToNextItem\<close> of the render
  that scheduled it. \<^verbatim>\<open>handleStart\<close> is not modelled: the properties below are stated
  for arbitrary states, and the slide data of a state never changes. JavaScript numbers
  are modelled by the rational number they denote.
\<close>

subsection \<open>Data\<close>

text \<open>
  One entry of \<^verbatim>\<open>slidesData[i].sequence\<close>. Of the loosely typed \<^verbatim>\<open>settings\<close>
  only the two fields read by the handlers are kept. The source's field names
  \<^verbatim>\<open>type\<close> and \<^verbatim>\<open>text\<close> are written \<open>itemType\<close> and \<open>itemText\<close>.
\<close>

record settings =
  timeoutDuration :: "rat option"
  advanceOnSelect :: "bool option"

record seq_item =
  itemType :: string
  hotspotType :: "string option"
  role :: "string option"
  itemText :: "string option"
  settings :: "settings option"

record slide =
  imageId :: string
  sequence :: "seq_item list"

text \<open>The \<^verbatim>\<open>scores\<close> object of \<^verbatim>\<open>EndChatResponse\<close>.\<close>

record scores =
  Sim_Accuracy :: rat
  Keyword_Score :: rat
  Click_Score :: rat
  Confidence :: rat
  Energy :: rat
  Concentration :: rat

text \<open>
  A displayed chat message; the \<^verbatim>\<open>id\<close> and \<^verbatim>\<open>timestamp\<close> fields, both read
  from the wall clock, are left out.
\<close>

record message =
  msgRole :: string
  msgText :: string

text \<open>
  A pending \<^verbatim>\<open>setTimeout\<close>. The callback is one of the five closures the component
  creates; a closure keeps the \<^verbatim>\<open>moveToNextItem\<close> of the render it was created in,
  hence the slide and sequence index of that render (\<open>seenSlide\<close>, \<open>seenSeq\<close>).
\<close>

datatype timer_callback =
  CustomerMessageDone
  | HotspotTimeoutDone
  | CheckboxDone
  | SelectDone
  | SubmitDone

record timer =
  delayMs :: rat
  callback :: timer_callback
  seenSlide :: nat
  seenSeq :: nat

text \<open>The parameters of one \<^verbatim>\<open>/api/simulations/end-visual-chat\<close> request.\<close>

record end_params =
  user_id :: string
  simulation_id :: string
  usersimulationprogress_id :: string

text \<open>
  The outcome of one end request: the promise is rejected, or it resolves with
  \<^verbatim>\<open>response.data.scores\<close> and \<^verbatim>\<open>response.data.duration\<close>, either of which may
  be missing.
\<close>

datatype end_reply =
  EndFailed
  | EndReplied "scores option" "rat option"

text \<open>
  The state. The first block are the \<^verbatim>\<open>useState\<close> cells under their source names
  (\<open>slidesData\<close> stands for \<^verbatim>\<open>simulationData?.slidesData || []\<close>); \<open>timerRef\<close> tells
  whether \<^verbatim>\<open>timerRef.current\<close> holds a live interval; \<open>userId\<close> and
  \<open>simulationId\<close> are the values the component receives from the authentication context
  and from its properties. The last three fields are the environment the handlers act on:
  the timeouts that are scheduled and have not fired, the end requests sent so far, and,
  for each request whose reply is outstanding, the \<^verbatim>\<open>elapsedTime\<close> its closure saw.
\<close>

record sim_state =
  isStarted :: bool
  isEndingChat :: bool
  simulationProgressId :: "string option"
  showCompletionScreen :: bool
  scores :: "scores option"
  duration :: rat
  elapsedTime :: nat
  isPaused :: bool
  slidesData :: "slide list"
  currentSlideIndex :: nat
  currentSequenceIndex :: nat
  imageLoaded :: bool
  isProcessing :: bool
  highlightHotspot :: bool
  dropdownOpen :: bool
  dropdownValue :: string
  checkboxChecked :: bool
  textInputValue :: string
  showCoachingTip :: bool
  userInput :: string
  waitingForUserInput :: bool
  expectedTraineeResponse :: string
  currentMessage :: "message option"
  timerRef :: bool
  userId :: string
  simulationId :: string
  pending :: "timer list"
  endRequests :: "end_params list"
  endOutstanding :: "nat list"

subsection \<open>Pass or fail\<close>

definition MIN_PASSING_SCORE :: rat where
  "MIN_PASSING_SCORE = 85"

definition isPassed :: "sim_state \<Rightarrow> bool" where
  "isPassed s =
     (case scores s of
        Some sc \<Rightarrow> Sim_Accuracy sc \<ge> MIN_PASSING_SCORE
      | None \<Rightarrow> False)"

subsection \<open>The current item and the advance\<close>

text \<open>
  \<^verbatim>\<open>slidesData[i] || {}\<close> followed by \<^verbatim>\<open>.sequence || []\<close>: an index outside the
  array gives the empty sequence; \<^verbatim>\<open>currentSequence[j]\<close> outside the sequence gives
  \<^verbatim>\<open>undefined\<close>, here \<open>None\<close>.
\<close>

definition sequenceAt :: "slide list \<Rightarrow> nat \<Rightarrow> seq_item list" where
  "sequenceAt sl i = (if i < length sl then sequence (sl ! i) else [])"

definition currentSequence :: "sim_state \<Rightarrow> seq_item list" where
  "currentSequence s = sequenceAt (slidesData s) (currentSlideIndex s)"

definition currentItem :: "sim_state \<Rightarrow> seq_item option" where
  "currentItem s =
     (if currentSequenceIndex s < length (currentSequence s)
      then Some (currentSequence s ! currentSequenceIndex s)
      else None)"

text \<open>
  \<^verbatim>\<open>moveToNextItem\<close>. The two comparisons read \<^verbatim>\<open>currentSequenceIndex\<close>,
  \<^verbatim>\<open>currentSequence.length\<close>, \<^verbatim>\<open>currentSlideIndex\<close> and \<^verbatim>\<open>slidesData.length\<close>
  of the render the function was created in (the arguments \<open>seenSl\<close> and \<open>seenSq\<close>;
  no handler modelled here replaces the slide data), while the index updates are
  functional (\<^verbatim>\<open>prevIndex => prevIndex + 1\<close>) and act on the state at the time of
  the call. The lengths are compared as integers, as \<^verbatim>\<open>length - 1\<close> is \<open>-1\<close> on an
  empty array.
\<close>

definition moveToNextItem :: "nat \<Rightarrow> nat \<Rightarrow> sim_state \<Rightarrow> sim_state" where
  "moveToNextItem seenSl seenSq s =
     (if int seenSq < int (length (sequenceAt (slidesData s) seenSl)) - 1 then
        s\<lparr>currentSequenceIndex := currentSequenceIndex s + 1\<rparr>
      else if int seenSl < int (length (slidesData s)) - 1 then
        s\<lparr>currentSlideIndex := currentSlideIndex s + 1,
          currentSequenceIndex := 0,
          imageLoaded := False\<rparr>
      else s\<lparr>highlightHotspot := False\<rparr>)"

text \<open>A handler of the current render calls the advance with the current indices.\<close>

definition moveToNextItemNow :: "sim_state \<Rightarrow> sim_state" where
  "moveToNextItemNow s = moveToNextItem (currentSlideIndex s) (currentSequenceIndex s) s"

definition newTimer :: "rat \<Rightarrow> timer_callback \<Rightarrow> sim_state \<Rightarrow> timer" where
  "newTimer ms cb s =
     \<lparr>delayMs = ms, callback = cb,
      seenSlide = currentSlideIndex s, seenSeq = currentSequenceIndex s\<rparr>"

subsection \<open>Item entry\<close>

text \<open>\<^verbatim>\<open>currentItem.hotspotType || "button"\<close>: a missing or empty type is a button.\<close>

definition hotspotKind :: "seq_item \<Rightarrow> string" where
  "hotspotKind it =
     (case hotspotType it of
        None \<Rightarrow> ''button''
      | Some k \<Rightarrow> if k = [] then ''button'' else k)"

text \<open>\<^verbatim>\<open>currentItem.settings?.timeoutDuration\<close>.\<close>

definition itemTimeout :: "seq_item \<Rightarrow> rat option" where
  "itemTimeout it =
     (case settings it of None \<Rightarrow> None | Some st \<Rightarrow> timeoutDuration st)"

text \<open>\<^verbatim>\<open>currentItem.text || ""\<close>.\<close>

definition textOrEmpty :: "seq_item \<Rightarrow> string" where
  "textOrEmpty it = (case itemText it of None \<Rightarrow> [] | Some t \<Rightarrow> t)"

text \<open>
  The body of \<^verbatim>\<open>processItem\<close> for the item \<open>it\<close> of the render \<open>r\<close>, applied to
  the state \<open>s\<close>. The function is declared \<^verbatim>\<open>async\<close> but awaits nothing, so its
  updates are queued in one batch: \<^verbatim>\<open>setIsProcessing(true)\<close> followed by
  \<^verbatim>\<open>setIsProcessing(false)\<close> leaves \<open>False\<close>. The timeout that only moves the
  keyboard focus to the chat input is left out. A timeout is taken when
  \<^verbatim>\<open>timeout && timeout > 0\<close> and the kind is none of button, dropdown, checkbox.
\<close>

definition processItem :: "seq_item \<Rightarrow> sim_state \<Rightarrow> sim_state \<Rightarrow> sim_state" where
  "processItem it r s =
     (if itemType it = ''message'' then
        (if role it = Some ''Customer'' \<or> role it = Some ''customer'' then
           s\<lparr>isProcessing := True,
             currentMessage := Some \<lparr>msgRole = ''customer'', msgText = textOrEmpty it\<rparr>,
             pending := pending s @ [newTimer 800 CustomerMessageDone r]\<rparr>
         else
           s\<lparr>waitingForUserInput := True,
             expectedTraineeResponse := textOrEmpty it,
             isProcessing := False\<rparr>)
      else if itemType it = ''hotspot'' then
        (case itemTimeout it of
           Some t \<Rightarrow>
             if t > 0 \<and> hotspotKind it \<noteq> ''button'' \<and> hotspotKind it \<noteq> ''dropdown''
                \<and> hotspotKind it \<noteq> ''checkbox''
             then
               s\<lparr>highlightHotspot := True, isProcessing := True,
                 pending := pending s @ [newTimer (t * 1000) HotspotTimeoutDone r]\<rparr>
             else s\<lparr>highlightHotspot := True, isProcessing := False\<rparr>
         | None \<Rightarrow> s\<lparr>highlightHotspot := True, isProcessing := False\<rparr>)
      else s\<lparr>isProcessing := False\<rparr>)"

text \<open>
  The effect around \<^verbatim>\<open>processItem\<close>: it returns at once when there is no current
  item, an item is being processed, the image is not loaded, the session is paused or
  not started. All five are read from the render \<open>r\<close>.
\<close>

definition processItemEffect :: "sim_state \<Rightarrow> sim_state \<Rightarrow> sim_state" where
  "processItemEffect r s =
     (case currentItem r of
        None \<Rightarrow> s
      | Some it \<Rightarrow>
          if isProcessing r \<or> \<not> imageLoaded r \<or> isPaused r \<or> \<not> isStarted r then s
          else processItem it r s)"

text \<open>The effect that resets the per-item flags when either index has changed.\<close>

definition isCoachingTip :: "seq_item option \<Rightarrow> bool" where
  "isCoachingTip io =
     (case io of
        None \<Rightarrow> False
      | Some it \<Rightarrow> itemType it = ''hotspot''
          \<and> (hotspotType it = Some ''coaching'' \<or> hotspotType it = Some ''coachingtip''))"

definition resetItemEffect :: "sim_state \<Rightarrow> sim_state \<Rightarrow> sim_state" where
  "resetItemEffect r s =
     s\<lparr>dropdownOpen := False,
       dropdownValue := [],
       checkboxChecked := False,
       textInputValue := [],
       showCoachingTip := isCoachingTip (currentItem r),
       highlightHotspot := False,
       waitingForUserInput := False,
       expectedTraineeResponse := []\<rparr>"

text \<open>
  What React does after a handler has turned the render \<open>prev\<close> into the render \<open>r\<close>:
  the effects whose dependencies differ run in the order of their declaration, each
  reading \<open>r\<close>, and their updates are applied in that order. The interval effect depends
  on \<^verbatim>\<open>isPaused\<close> and \<^verbatim>\<open>isStarted\<close>; its cleanup clears the old interval and its
  body registers a new one. The reset effect depends on the two indices. The
  \<^verbatim>\<open>processItem\<close> effect depends on the current item, the two indices,
  \<^verbatim>\<open>imageLoaded\<close>, \<^verbatim>\<open>isPaused\<close>, \<^verbatim>\<open>isProcessing\<close> and \<^verbatim>\<open>isStarted\<close>; the
  current item is determined by the indices, since the slide data is not replaced. One
  round is enough: lemma \<open>afterRender_settled\<close> below shows that a second round changes
  nothing.
\<close>

definition afterRender :: "sim_state \<Rightarrow> sim_state \<Rightarrow> sim_state" where
  "afterRender prev r =
     (let s1 = (if isPaused r \<noteq> isPaused prev \<or> isStarted r \<noteq> isStarted prev
                then r\<lparr>timerRef := True\<rparr> else r);
          s2 = (if currentSequenceIndex r \<noteq> currentSequenceIndex prev
                   \<or> currentSlideIndex r \<noteq> currentSlideIndex prev
                then resetItemEffect r s1 else s1)
      in if currentSequenceIndex r \<noteq> currentSequenceIndex prev
            \<or> currentSlideIndex r \<noteq> currentSlideIndex prev
            \<or> imageLoaded r \<noteq> imageLoaded prev
            \<or> isPaused r \<noteq> isPaused prev
            \<or> isProcessing r \<noteq> isProcessing prev
            \<or> isStarted r \<noteq> isStarted prev
         then processItemEffect r s2 else s2)"

subsection \<open>The handlers\<close>

text \<open>
  \<^verbatim>\<open>handleHotspotClick\<close>. The checkbox branch marks the box and schedules the
  advance 800 ms later; it does not touch \<^verbatim>\<open>isProcessing\<close>.
\<close>

definition handleHotspotClick :: "sim_state \<Rightarrow> sim_state" where
  "handleHotspotClick s =
     (case currentItem s of
        None \<Rightarrow> s
      | Some it \<Rightarrow>
          if \<not> isStarted s \<or> itemType it \<noteq> ''hotspot'' \<or> isProcessing s \<or> isPaused s then s
          else if hotspotKind it = ''button'' \<or> hotspotKind it = ''highlight'' then
            moveToNextItemNow (s\<lparr>highlightHotspot := False\<rparr>)
          else if hotspotKind it = ''dropdown'' then
            s\<lparr>dropdownOpen := \<not> dropdownOpen s\<rparr>
          else if hotspotKind it = ''checkbox'' then
            s\<lparr>checkboxChecked := True,
              pending := pending s @ [newTimer 800 CheckboxDone s]\<rparr>
          else if hotspotKind it = ''coaching'' \<or> hotspotKind it = ''coachingtip'' then
            moveToNextItemNow (s\<lparr>showCoachingTip := False\<rparr>)
          else s)"

text \<open>\<^verbatim>\<open>currentItem?.settings?.advanceOnSelect\<close>, read as a condition.\<close>

definition advancesOnSelect :: "seq_item option \<Rightarrow> bool" where
  "advancesOnSelect io =
     (case io of
        None \<Rightarrow> False
      | Some it \<Rightarrow>
          (case settings it of
             None \<Rightarrow> False
           | Some st \<Rightarrow> advanceOnSelect st = Some True))"

definition handleDropdownSelect :: "string \<Rightarrow> sim_state \<Rightarrow> sim_state" where
  "handleDropdownSelect option s =
     (let s1 = s\<lparr>dropdownValue := option, dropdownOpen := False\<rparr>
      in if advancesOnSelect (currentItem s)
         then s1\<lparr>pending := pending s @ [newTimer 500 SelectDone s]\<rparr>
         else s1)"

definition handleTextInputSubmit :: "string \<Rightarrow> sim_state \<Rightarrow> sim_state" where
  "handleTextInputSubmit key s = (if key = ''Enter'' then moveToNextItemNow s else s)"

text \<open>
  \<^verbatim>\<open>String.prototype.trim\<close> on a string of bytes: the white space and line
  terminators of the ASCII range (tab, line feed, vertical tab, form feed, carriage
  return, space) are removed at both ends.
\<close>

definition isSpace :: "char \<Rightarrow> bool" where
  "isSpace c = (c = CHR 0x09 \<or> c = CHR 0x0A \<or> c = CHR 0x0B \<or> c = CHR 0x0C
     \<or> c = CHR 0x0D \<or> c = CHR 0x20)"

definition trim :: "string \<Rightarrow> string" where
  "trim str = rev (dropWhile isSpace (rev (dropWhile isSpace str)))"

definition handleSubmitMessage :: "sim_state \<Rightarrow> sim_state" where
  "handleSubmitMessage s =
     (if trim (userInput s) = [] \<or> \<not> waitingForUserInput s then s
      else
        s\<lparr>currentMessage := Some \<lparr>msgRole = ''trainee'', msgText = userInput s\<rparr>,
          userInput := [],
          waitingForUserInput := False,
          expectedTraineeResponse := [],
          pending := pending s @ [newTimer 500 SubmitDone s]\<rparr>)"

definition handleKeyPress :: "string \<Rightarrow> bool \<Rightarrow> sim_state \<Rightarrow> sim_state" where
  "handleKeyPress key shiftKey s =
     (if key = ''Enter'' \<and> \<not> shiftKey then handleSubmitMessage s else s)"

definition togglePause :: "sim_state \<Rightarrow> sim_state" where
  "togglePause s = s\<lparr>isPaused := \<not> isPaused s\<rparr>"

text \<open>
  One invocation of the callback of \<^verbatim>\<open>setInterval\<close>. The interval is registered
  anew whenever \<^verbatim>\<open>isPaused\<close> or \<^verbatim>\<open>isStarted\<close> changes, so the two values its
  closure holds are the current ones.
\<close>

definition tick :: "sim_state \<Rightarrow> sim_state" where
  "tick s =
     (if \<not> isPaused s \<and> isStarted s then s\<lparr>elapsedTime := elapsedTime s + 1\<rparr> else s)"

text \<open>\<^verbatim>\<open>handleImageLoad\<close>, the image scale left out.\<close>

definition handleImageLoad :: "sim_state \<Rightarrow> sim_state" where
  "handleImageLoad s = s\<lparr>imageLoaded := True\<rparr>"

text \<open>
  \<^verbatim>\<open>handleEndChat\<close> up to the request. The handler returns when an end is under way
  or the user id is empty; otherwise it sets \<^verbatim>\<open>isEndingChat\<close>, clears the interval,
  clears \<^verbatim>\<open>isStarted\<close>, and only then looks for the progress id: without one
  (\<^verbatim>\<open>!simulationProgressId\<close> holds of \<^verbatim>\<open>null\<close> and of the empty string) it gives
  \<^verbatim>\<open>isEndingChat\<close> back and returns, with one it sends the request.
\<close>

definition missingProgressId :: "sim_state \<Rightarrow> bool" where
  "missingProgressId s =
     (case simulationProgressId s of None \<Rightarrow> True | Some pid \<Rightarrow> pid = [])"

definition handleEndChat :: "sim_state \<Rightarrow> sim_state" where
  "handleEndChat s =
     (if isEndingChat s then s
      else if userId s = [] then s
      else
        (let s1 = s\<lparr>isEndingChat := True, timerRef := False, isStarted := False\<rparr>
         in if missingProgressId s then s1\<lparr>isEndingChat := False\<rparr>
            else
              s1\<lparr>endRequests := endRequests s @
                     [\<lparr>user_id = userId s, simulation_id = simulationId s,
                       usersimulationprogress_id =
                         (case simulationProgressId s of None \<Rightarrow> [] | Some pid \<Rightarrow> pid)\<rparr>],
                 endOutstanding := endOutstanding s @ [elapsedTime s]\<rparr>))"

text \<open>
  The rest of \<^verbatim>\<open>handleEndChat\<close>, run when the reply of the oldest outstanding request
  arrives: the \<^verbatim>\<open>try\<close> body on a reply with scores, nothing but a log line on a
  reply without scores or on a rejection, and \<^verbatim>\<open>finally\<close> in all three cases.
  \<^verbatim>\<open>response.data.duration || elapsedTime\<close> falls back when the duration is
  missing or zero.
\<close>

definition handleEndChatReply :: "end_reply \<Rightarrow> sim_state \<Rightarrow> sim_state" where
  "handleEndChatReply reply s =
     (case endOutstanding s of
        [] \<Rightarrow> s
      | seenElapsed # rest \<Rightarrow>
          (let s1 = s\<lparr>endOutstanding := rest\<rparr>;
               s2 = (case reply of
                       EndReplied (Some sc) d \<Rightarrow>
                         s1\<lparr>scores := Some sc,
                            duration := (case d of
                                           None \<Rightarrow> of_nat seenElapsed
                                         | Some x \<Rightarrow> if x = 0 then of_nat seenElapsed else x),
                            showCompletionScreen := True\<rparr>
                     | EndReplied None d \<Rightarrow> s1
                     | EndFailed \<Rightarrow> s1)
           in s2\<lparr>isEndingChat := False\<rparr>))"

definition handleRestartSim :: "sim_state \<Rightarrow> sim_state" where
  "handleRestartSim s =
     s\<lparr>showCompletionScreen := False,
       isStarted := False,
       elapsedTime := 0,
       scores := None,
       currentSlideIndex := 0,
       currentSequenceIndex := 0,
       imageLoaded := False,
       currentMessage := None\<rparr>"

definition handleViewPlayback :: "sim_state \<Rightarrow> sim_state" where
  "handleViewPlayback s = s\<lparr>showCompletionScreen := False\<rparr>"

text \<open>The five timeout callbacks.\<close>

definition fire :: "timer \<Rightarrow> sim_state \<Rightarrow> sim_state" where
  "fire t s =
     (let s1 = moveToNextItem (seenSlide t) (seenSeq t) s
      in case callback t of
           CustomerMessageDone \<Rightarrow> s1\<lparr>isProcessing := False\<rparr>
         | HotspotTimeoutDone \<Rightarrow> s1\<lparr>highlightHotspot := False, isProcessing := False\<rparr>
         | CheckboxDone \<Rightarrow> s1\<lparr>checkboxChecked := False\<rparr>
         | SelectDone \<Rightarrow> s1
         | SubmitDone \<Rightarrow> s1)"

text \<open>The \<open>n\<close>-th pending timeout fires and leaves the list.\<close>

definition timeoutFires :: "nat \<Rightarrow> sim_state \<Rightarrow> sim_state" where
  "timeoutFires n s =
     (if n < length (pending s)
      then fire (pending s ! n) (s\<lparr>pending := take n (pending s) @ drop (Suc n) (pending s)\<rparr>)
      else s)"

subsection \<open>Events\<close>

datatype event =
  HotspotClick
  | DropdownSelect string
  | DropdownClose
  | TextInputChange string
  | TextInputKey string
  | UserInputChange string
  | SubmitMessage
  | KeyPress string bool
  | TogglePause
  | Tick
  | TimeoutFires nat
  | ImageLoad
  | EndChat
  | EndReply end_reply
  | RestartSim
  | ViewPlayback

fun handler :: "event \<Rightarrow> sim_state \<Rightarrow> sim_state" where
  "handler HotspotClick s = handleHotspotClick s"
| "handler (DropdownSelect option) s = handleDropdownSelect option s"
| "handler DropdownClose s = s\<lparr>dropdownOpen := False\<rparr>"
| "handler (TextInputChange v) s = s\<lparr>textInputValue := v\<rparr>"
| "handler (TextInputKey key) s = handleTextInputSubmit key s"
| "handler (UserInputChange v) s = s\<lparr>userInput := v\<rparr>"
| "handler SubmitMessage s = handleSubmitMessage s"
| "handler (KeyPress key shiftKey) s = handleKeyPress key shiftKey s"
| "handler TogglePause s = togglePause s"
| "handler Tick s = tick s"
| "handler (TimeoutFires n) s = timeoutFires n s"
| "handler ImageLoad s = handleImageLoad s"
| "handler EndChat s = handleEndChat s"
| "handler (EndReply reply) s = handleEndChatReply reply s"
| "handler RestartSim s = handleRestartSim s"
| "handler ViewPlayback s = handleViewPlayback s"

text \<open>One event: the handler, then the effects of the render it caused.\<close>

definition step :: "event \<Rightarrow> sim_state \<Rightarrow> sim_state" where
  "step e s = afterRender s (handler e s)"

fun run :: "event list \<Rightarrow> sim_state \<Rightarrow> sim_state" where
  "run [] s = s"
| "run (e # es) s = run es (step e s)"

subsection \<open>Notions the properties are stated with\<close>

text \<open>The current position, and the lexicographic order on positions.\<close>

definition position :: "sim_state \<Rightarrow> nat \<times> nat" where
  "position s = (currentSlideIndex s, currentSequenceIndex s)"

definition posLe :: "nat \<times> nat \<Rightarrow> nat \<times> nat \<Rightarrow> bool" where
  "posLe p q = (fst p < fst q \<or> (fst p = fst q \<and> snd p \<le> snd q))"

text \<open>
  The number of interval firings of a run that arrive while the session is started and
  not paused.
\<close>

fun playingTicks :: "event list \<Rightarrow> sim_state \<Rightarrow> nat" where
  "playingTicks [] s = 0"
| "playingTicks (e # es) s =
     (if e = Tick \<and> isStarted s \<and> \<not> isPaused s then 1 else 0) + playingTicks es (step e s)"

text \<open>
  The events that need no action of the trainee: an interval firing, a timeout firing,
  the load of the slide image.
\<close>

fun clockEvent :: "event \<Rightarrow> bool" where
  "clockEvent Tick = True"
| "clockEvent (TimeoutFires n) = True"
| "clockEvent ImageLoad = True"
| "clockEvent e = False"

text \<open>
  An item is entered by the render \<open>r\<close> that follows the render \<open>prev\<close> when the position
  has changed or the image of the slide has just been loaded.
\<close>

definition enters :: "sim_state \<Rightarrow> sim_state \<Rightarrow> bool" where
  "enters prev r = (position r \<noteq> position prev \<or> imageLoaded r \<noteq> imageLoaded prev)"

text \<open>The timeout that the entry of a hotspot with \<^verbatim>\<open>timeoutDuration\<close> \<open>t\<close> schedules.\<close>

definition hotspotTimer :: "rat \<Rightarrow> sim_state \<Rightarrow> timer" where
  "hotspotTimer t r = newTimer (t * 1000) HotspotTimeoutDone r"


text \<open>The events that deliver the reply of an end request.\<close>

fun isEndReply :: "event \<Rightarrow> bool" where
  "isEndReply (EndReply reply) = True"
| "isEndReply e = False"

text \<open>The request that \<^verbatim>\<open>handleEndChat\<close> sends from the state \<open>s\<close> for the progress id \<open>pid\<close>.\<close>

definition endRequest :: "sim_state \<Rightarrow> string \<Rightarrow> end_params" where
  "endRequest s pid =
     \<lparr>user_id = userId s, simulation_id = simulationId s, usersimulationprogress_id = pid\<rparr>"

subsection \<open>Concrete sessions\<close>

text \<open>
  The state once \<^verbatim>\<open>handleStart\<close> has stored the reply of the start request: every
  cell has its initial value, except that the session is started, the slide data and the
  progress id are set, and the interval effect has run. The image of the first slide
  has not been loaded yet, so the first event of a session is \<open>ImageLoad\<close>.
\<close>

definition sessionStarted :: "slide list \<Rightarrow> sim_state" where
  "sessionStarted sl =
     \<lparr>isStarted = True, isEndingChat = False, simulationProgressId = Some ''progress-1'',
      showCompletionScreen = False, scores = None, duration = 0, elapsedTime = 0,
      isPaused = False, slidesData = sl, currentSlideIndex = 0, currentSequenceIndex = 0,
      imageLoaded = False, isProcessing = False, highlightHotspot = False,
      dropdownOpen = False, dropdownValue = [], checkboxChecked = False,
      textInputValue = [], showCoachingTip = False, userInput = [],
      waitingForUserInput = False, expectedTraineeResponse = [], currentMessage = None,
      timerRef = True, userId = ''user-1'', simulationId = ''sim-1'', pending = [],
      endRequests = [], endOutstanding = []\<rparr>"


definition hotspotItem :: "string \<Rightarrow> settings option \<Rightarrow> seq_item" where
  "hotspotItem kind st =
     \<lparr>itemType = ''hotspot'', hotspotType = Some kind, role = None, itemText = None,
      settings = st\<rparr>"

definition oneSlide :: "seq_item list \<Rightarrow> slide list" where
  "oneSlide items = [\<lparr>imageId = ''image-1'', sequence = items\<rparr>]"

definition someScores :: "rat \<Rightarrow> scores" where
  "someScores acc =
     \<lparr>Sim_Accuracy = acc, Keyword_Score = 70, Click_Score = 60, Confidence = 50,
      Energy = 40, Concentration = 30\<rparr>"

text \<open>A session of two slides: a button and a checkbox, then a button.\<close>

definition twoSlides :: "slide list" where
  "twoSlides =
     [\<lparr>imageId = ''image-1'',
       sequence = [hotspotItem ''button'' None, hotspotItem ''checkbox'' None]\<rparr>,
      \<lparr>imageId = ''image-2'', sequence = [hotspotItem ''button'' None]\<rparr>]"

text \<open>A slide with a checkbox followed by two buttons.\<close>

definition checkboxFirst :: "slide list" where
  "checkboxFirst =
     oneSlide [hotspotItem ''checkbox'' None, hotspotItem ''button'' None,
       hotspotItem ''button'' None]"

text \<open>
  A slide with a highlight and a checkbox, both with a timeout of 5 seconds, and a
  button.
\<close>

definition timedSlides :: "slide list" where
  "timedSlides =
     oneSlide
       [hotspotItem ''highlight'' (Some \<lparr>timeoutDuration = Some 5, advanceOnSelect = None\<rparr>),
        hotspotItem ''checkbox'' (Some \<lparr>timeoutDuration = Some 5, advanceOnSelect = None\<rparr>),
        hotspotItem ''button'' None]"


text \<open>
  A slide with a button, a dropdown with \<^verbatim>\<open>advanceOnSelect\<close> true, a dropdown with
  \<^verbatim>\<open>advanceOnSelect\<close> false, and a button.
\<close>

definition dropdownSlides :: "slide list" where
  "dropdownSlides =
     oneSlide
       [hotspotItem ''button'' None,
        hotspotItem ''dropdown''
          (Some \<lparr>timeoutDuration = None, advanceOnSelect = Some True\<rparr>),
        hotspotItem ''dropdown''
          (Some \<lparr>timeoutDuration = None, advanceOnSelect = Some False\<rparr>),
        hotspotItem ''button'' None]"

text \<open>A session that never received a progress id.\<close>

definition sessionWithoutProgressId :: sim_state where
  "sessionWithoutProgressId = (sessionStarted twoSlides)\<lparr>simulationProgressId := None\<rparr>"

section \<open>Effects, steps and runs\<close>

lemma processItem_frame:
  "currentSlideIndex (processItem it r s) = currentSlideIndex s"
  "currentSequenceIndex (processItem it r s) = currentSequenceIndex s"
  "elapsedTime (processItem it r s) = elapsedTime s"
  "isPaused (processItem it r s) = isPaused s"
  "isStarted (processItem it r s) = isStarted s"
  "imageLoaded (processItem it r s) = imageLoaded s"
  "isEndingChat (processItem it r s) = isEndingChat s"
  "endRequests (processItem it r s) = endRequests s"
  "endOutstanding (processItem it r s) = endOutstanding s"
  "scores (processItem it r s) = scores s"
  "showCompletionScreen (processItem it r s) = showCompletionScreen s"
  "simulationProgressId (processItem it r s) = simulationProgressId s"
  "userId (processItem it r s) = userId s"
  "simulationId (processItem it r s) = simulationId s"
  "slidesData (processItem it r s) = slidesData s"
  "timerRef (processItem it r s) = timerRef s"
  "duration (processItem it r s) = duration s"
  "dropdownOpen (processItem it r s) = dropdownOpen s"
  "dropdownValue (processItem it r s) = dropdownValue s"
  "userInput (processItem it r s) = userInput s"
  by (simp_all add: processItem_def split: option.splits)

lemma afterRender_frame:
  "currentSlideIndex (afterRender prev r) = currentSlideIndex r"
  "currentSequenceIndex (afterRender prev r) = currentSequenceIndex r"
  "elapsedTime (afterRender prev r) = elapsedTime r"
  "isPaused (afterRender prev r) = isPaused r"
  "isStarted (afterRender prev r) = isStarted r"
  "imageLoaded (afterRender prev r) = imageLoaded r"
  "isEndingChat (afterRender prev r) = isEndingChat r"
  "endRequests (afterRender prev r) = endRequests r"
  "endOutstanding (afterRender prev r) = endOutstanding r"
  "scores (afterRender prev r) = scores r"
  "showCompletionScreen (afterRender prev r) = showCompletionScreen r"
  "simulationProgressId (afterRender prev r) = simulationProgressId r"
  "userId (afterRender prev r) = userId r"
  "simulationId (afterRender prev r) = simulationId r"
  "slidesData (afterRender prev r) = slidesData r"
  "duration (afterRender prev r) = duration r"
  "userInput (afterRender prev r) = userInput r"
  by (simp_all add: afterRender_def Let_def processItemEffect_def resetItemEffect_def
        processItem_frame split: option.splits)

text \<open>A handler that changes nothing causes no render, and no effect runs.\<close>

lemma afterRender_same: "afterRender s s = s"
  by (simp add: afterRender_def)

lemma afterRender_no_dep:
  "isPaused r = isPaused prev \<Longrightarrow> isStarted r = isStarted prev \<Longrightarrow>
   currentSequenceIndex r = currentSequenceIndex prev \<Longrightarrow>
   currentSlideIndex r = currentSlideIndex prev \<Longrightarrow>
   imageLoaded r = imageLoaded prev \<Longrightarrow> isProcessing r = isProcessing prev \<Longrightarrow>
   afterRender prev r = r"
  by (simp add: afterRender_def)

text \<open>
  The effects of a render settle in one round. The updates they queue change none of the
  dependencies but \<^verbatim>\<open>isProcessing\<close>, and that only to \<open>True\<close>, on which the
  \<^verbatim>\<open>processItem\<close> effect returns at once.
\<close>

lemma afterRender_settled: "afterRender r (afterRender prev r) = afterRender prev r"
proof -
  let ?s = "afterRender prev r"
  have same: "isPaused ?s = isPaused r" "isStarted ?s = isStarted r"
    "currentSequenceIndex ?s = currentSequenceIndex r"
    "currentSlideIndex ?s = currentSlideIndex r" "imageLoaded ?s = imageLoaded r"
    by (simp_all add: afterRender_frame)
  have "isProcessing ?s = isProcessing r \<or> isProcessing ?s"
    by (auto simp: afterRender_def Let_def resetItemEffect_def processItemEffect_def
          processItem_def split: option.splits)
  then have "isProcessing ?s \<noteq> isProcessing r \<Longrightarrow> processItemEffect ?s ?s = ?s"
    by (auto simp: processItemEffect_def split: option.splits)
  then show ?thesis
    unfolding afterRender_def [of r ?s] by (simp add: same Let_def)
qed

lemma position_upd [simp]:
  "position (s\<lparr>highlightHotspot := h\<rparr>) = position s"
  "position (s\<lparr>showCoachingTip := c\<rparr>) = position s"
  "position (s\<lparr>isProcessing := p\<rparr>) = position s"
  "position (s\<lparr>checkboxChecked := k\<rparr>) = position s"
  "position (s\<lparr>pending := ts\<rparr>) = position s"
  by (simp_all add: position_def)

lemma position_step: "position (step e s) = position (handler e s)"
  by (simp add: step_def position_def afterRender_frame)

lemma position_fire:
  "position (fire t x) = position (moveToNextItem (seenSlide t) (seenSeq t) x)"
  by (cases "callback t") (simp_all add: fire_def Let_def)

lemma position_timeoutFires:
  "n < length (pending s) \<Longrightarrow>
   position (step (TimeoutFires n) s)
     = position (moveToNextItem (seenSlide (pending s ! n)) (seenSeq (pending s ! n)) s)"
proof -
  have "position (fire t x) = position (moveToNextItem (seenSlide t) (seenSeq t) x)" for t x
    by (cases "callback t") (simp_all add: fire_def Let_def)
  moreover have "position (moveToNextItem a b (x\<lparr>pending := ts\<rparr>))
      = position (moveToNextItem a b x)" for a b x ts
    by (simp add: moveToNextItem_def position_def)
  ultimately have "n < length (pending s) \<Longrightarrow> position (handler (TimeoutFires n) s)
      = position (moveToNextItem (seenSlide (pending s ! n)) (seenSeq (pending s ! n)) s)"
    by (simp add: timeoutFires_def)
  then show "n < length (pending s) \<Longrightarrow>
   position (step (TimeoutFires n) s)
     = position (moveToNextItem (seenSlide (pending s ! n)) (seenSeq (pending s ! n)) s)"
    by (simp only: position_step)
qed

lemma position_moveToNextItem_cong:
  "slidesData a = slidesData b \<Longrightarrow> position a = position b \<Longrightarrow>
   position (moveToNextItem x y a) = position (moveToNextItem x y b)"
  by (simp add: moveToNextItem_def position_def)


lemma slidesData_step: "slidesData (step e s) = slidesData s"
proof -
  have mv: "\<And>a b x. slidesData (moveToNextItem a b x) = slidesData x"
    by (simp add: moveToNextItem_def)
  have "slidesData (handler e s) = slidesData s"
  proof (cases e)
    case HotspotClick
    then show ?thesis
      by (simp add: handleHotspotClick_def moveToNextItemNow_def mv split: option.splits)
  next
    case (TimeoutFires n)
    then show ?thesis
      by (cases "callback (pending s ! n)") (simp_all add: timeoutFires_def fire_def Let_def mv)
  next
    case (EndReply reply)
    then show ?thesis
      by (simp add: handleEndChatReply_def Let_def
            split: list.splits end_reply.splits option.splits)
  qed (simp_all add: handleDropdownSelect_def handleTextInputSubmit_def moveToNextItemNow_def
        mv handleSubmitMessage_def handleKeyPress_def togglePause_def tick_def
        handleImageLoad_def handleEndChat_def handleViewPlayback_def handleRestartSim_def
        Let_def split: option.splits)
  then show ?thesis by (simp add: step_def afterRender_frame)
qed

lemma pending_processItem: "\<exists>ts. pending (processItem it r s) = pending s @ ts"
  by (simp add: processItem_def split: option.splits)

lemma pending_processItemEffect: "\<exists>ts. pending (processItemEffect r s) = pending s @ ts"
  using pending_processItem by (simp add: processItemEffect_def split: option.splits)

lemma pending_afterRender: "\<exists>ts. pending (afterRender prev r) = pending r @ ts"
proof -
  define s1 where "s1 = (if isPaused r \<noteq> isPaused prev \<or> isStarted r \<noteq> isStarted prev
                then r\<lparr>timerRef := True\<rparr> else r)"
  define s2 where "s2 = (if currentSequenceIndex r \<noteq> currentSequenceIndex prev
                   \<or> currentSlideIndex r \<noteq> currentSlideIndex prev
                then resetItemEffect r s1 else s1)"
  have "pending s2 = pending r"
    by (simp add: s2_def s1_def resetItemEffect_def)
  moreover have "afterRender prev r = s2 \<or> afterRender prev r = processItemEffect r s2"
    by (simp add: afterRender_def Let_def s2_def s1_def)
  ultimately show ?thesis
    using pending_processItemEffect [of r s2] by auto
qed

text \<open>What the effects do on entering an item whose processing is not held back.\<close>

lemma afterRender_enter:
  assumes "enters prev r" and "currentItem r = Some it"
    and "\<not> isProcessing r" and "imageLoaded r" and "\<not> isPaused r" and "isStarted r"
  shows "\<exists>s2. afterRender prev r = processItem it r s2 \<and> pending s2 = pending r
    \<and> position s2 = position r \<and> imageLoaded s2 = imageLoaded r
    \<and> currentMessage s2 = currentMessage r"
proof -
  define s1 where "s1 = (if isPaused r \<noteq> isPaused prev \<or> isStarted r \<noteq> isStarted prev
                then r\<lparr>timerRef := True\<rparr> else r)"
  define s2 where "s2 = (if currentSequenceIndex r \<noteq> currentSequenceIndex prev
                   \<or> currentSlideIndex r \<noteq> currentSlideIndex prev
                then resetItemEffect r s1 else s1)"
  have "pending s2 = pending r" "position s2 = position r" "imageLoaded s2 = imageLoaded r"
    "currentMessage s2 = currentMessage r"
    by (simp_all add: s2_def s1_def resetItemEffect_def position_def)
  moreover have "afterRender prev r = processItemEffect r s2"
    using assms(1) by (auto simp: afterRender_def Let_def s2_def s1_def enters_def position_def)
  moreover have "processItemEffect r s2 = processItem it r s2"
    using assms(2-6) by (simp add: processItemEffect_def)
  ultimately show ?thesis by auto
qed

lemma run_append: "run (xs @ ys) s = run ys (run xs s)"
  by (induction xs arbitrary: s) simp_all

lemma clockEvent_step:
  assumes "clockEvent e" and "pending s = []" and "imageLoaded s"
  shows "position (step e s) = position s \<and> pending (step e s) = [] \<and> imageLoaded (step e s)"
proof (cases e)
  case Tick
  have "afterRender s (tick s) = tick s"
    by (rule afterRender_no_dep) (simp_all add: tick_def)
  then show ?thesis using assms Tick by (simp add: step_def tick_def position_def)
next
  case (TimeoutFires n)
  then show ?thesis using assms by (simp add: step_def timeoutFires_def afterRender_same)
next
  case ImageLoad
  have "afterRender s (handleImageLoad s) = handleImageLoad s"
    by (rule afterRender_no_dep) (simp_all add: handleImageLoad_def assms(3))
  then show ?thesis using assms ImageLoad by (simp add: step_def handleImageLoad_def position_def)
qed (use assms(1) in simp_all)

lemma clockEvent_run:
  "\<forall>e \<in> set evs. clockEvent e \<Longrightarrow> pending s = [] \<Longrightarrow> imageLoaded s \<Longrightarrow>
   position (run evs s) = position s"
proof (induction evs arbitrary: s)
  case Nil
  show ?case by simp
next
  case (Cons e es)
  then have "clockEvent e" by simp
  from clockEvent_step [OF this Cons.prems(2,3)] Cons.IH [of "step e s"] Cons.prems(1)
  show ?case by simp
qed

lemma step_Tick_stopped: "\<not> isStarted s \<Longrightarrow> step Tick s = s"
  by (simp add: step_def tick_def afterRender_same)

lemma run_Ticks_stopped: "\<not> isStarted s \<Longrightarrow> run (replicate n Tick) s = s"
  by (induction n) (simp_all add: step_Tick_stopped)

section \<open>C1: the pass mark\<close>

text \<open>
  C1. A session result is judged passed exactly when its \<^verbatim>\<open>Sim Accuracy\<close> is at
  least 85, whatever the other five metrics are: 85 passes, 84.999 fails. The last
  conjunct reads the judgment off the state the end handler leaves when a reply with
  scores arrives for an outstanding request.
\<close>

theorem passed_iff_sim_accuracy_at_least_85:
  "isPassed (s\<lparr>scores := Some sc\<rparr>) = (85 \<le> Sim_Accuracy sc)
   \<and> isPassed (s\<lparr>scores := Some (sc\<lparr>Sim_Accuracy := 85\<rparr>)\<rparr>)
   \<and> \<not> isPassed (s\<lparr>scores := Some (sc\<lparr>Sim_Accuracy := 84999 / 1000\<rparr>)\<rparr>)
   \<and> isPassed (handleEndChatReply (EndReplied (Some sc) d) (s\<lparr>endOutstanding := e # es\<rparr>))
       = (85 \<le> Sim_Accuracy sc)"
  by (simp add: isPassed_def MIN_PASSING_SCORE_def handleEndChatReply_def Let_def)

theorem passed_iff_sim_accuracy_at_least_85_witness:
  "isPassed ((sessionStarted [])\<lparr>scores := Some (someScores 85)\<rparr>)
   \<and> \<not> isPassed ((sessionStarted [])\<lparr>scores := Some (someScores (84999 / 1000))\<rparr>)
   \<and> \<not> isPassed ((sessionStarted [])\<lparr>scores := Some (someScores 0)\<rparr>)
   \<and> isPassed ((sessionStarted [])\<lparr>scores := Some (someScores 100)\<rparr>)"
  using passed_iff_sim_accuracy_at_least_85
      [where s = "sessionStarted []" and sc = "someScores 85"]
    passed_iff_sim_accuracy_at_least_85
      [where s = "sessionStarted []" and sc = "someScores (84999 / 1000)"]
    passed_iff_sim_accuracy_at_least_85
      [where s = "sessionStarted []" and sc = "someScores 0"]
    passed_iff_sim_accuracy_at_least_85
      [where s = "sessionStarted []" and sc = "someScores 100"]
  by (simp add: someScores_def)

section \<open>C2: the position never moves backward\<close>

lemma posLe_refl: "posLe p p"
  by (simp add: posLe_def)

lemma posLe_trans: "posLe p q \<Longrightarrow> posLe q r \<Longrightarrow> posLe p r"
  by (auto simp: posLe_def)

lemma posLe_moveToNextItem: "posLe (position s) (position (moveToNextItem a b s))"
  by (simp add: moveToNextItem_def position_def posLe_def)

lemma posLe_fire: "posLe (position s) (position (fire t s))"
  by (cases "callback t") (simp_all add: fire_def Let_def posLe_moveToNextItem)

lemma posLe_handleHotspotClick: "posLe (position s) (position (handleHotspotClick s))"
  using posLe_moveToNextItem [of "s\<lparr>highlightHotspot := False\<rparr>"]
        posLe_moveToNextItem [of "s\<lparr>showCoachingTip := False\<rparr>"]
  by (simp add: handleHotspotClick_def moveToNextItemNow_def position_def posLe_def
        split: option.splits)

lemma posLe_timeoutFires: "posLe (position s) (position (timeoutFires n s))"
  using posLe_fire [of "s\<lparr>pending := take n (pending s) @ drop (Suc n) (pending s)\<rparr>"]
  by (simp add: timeoutFires_def posLe_refl)

lemma posLe_handler: "e \<noteq> RestartSim \<Longrightarrow> posLe (position s) (position (handler e s))"
proof (cases e)
  case HotspotClick
  then show ?thesis by (simp add: posLe_handleHotspotClick)
next
  case (TimeoutFires n)
  then show ?thesis by (simp add: posLe_timeoutFires)
next
  case (TextInputKey k)
  then show ?thesis
    by (simp add: handleTextInputSubmit_def moveToNextItemNow_def posLe_moveToNextItem
          posLe_refl)
next
  case (EndReply reply)
  then show ?thesis
    by (simp add: handleEndChatReply_def position_def posLe_def Let_def
          split: list.splits end_reply.splits option.splits)
qed (simp_all add: handleDropdownSelect_def handleSubmitMessage_def handleKeyPress_def
      togglePause_def tick_def handleImageLoad_def handleEndChat_def handleViewPlayback_def
      position_def posLe_def Let_def split: option.splits)

lemma posLe_step: "e \<noteq> RestartSim \<Longrightarrow> posLe (position s) (position (step e s))"
  by (simp add: position_step posLe_handler)

lemma posLe_run: "RestartSim \<notin> set evs \<Longrightarrow> posLe (position s) (position (run evs s))"
proof (induction evs arbitrary: s)
  case Nil
  show ?case by (simp add: posLe_refl)
next
  case (Cons e es)
  from Cons.prems have "e \<noteq> RestartSim" and "RestartSim \<notin> set es" by auto
  then have "posLe (position s) (position (step e s))"
    and "posLe (position (step e s)) (position (run es (step e s)))"
    using Cons.IH [of "step e s"] by (simp_all add: posLe_step)
  then show ?case using posLe_trans by fastforce
qed

text \<open>
  C2. From any state, and so from any started session, a sequence of events without a
  restart (clicks, selections, keys, submissions, pause toggles, interval firings,
  timeouts firing in any order, image loads, the end call and its reply) leaves the
  position at or after the position it started from, in the lexicographic order on
  (slide index, sequence index). A restart puts the position at (0, 0).
\<close>

theorem position_never_decreases_except_restart:
  "(RestartSim \<notin> set evs \<longrightarrow> posLe (position s) (position (run evs s)))
   \<and> position (step RestartSim s) = (0, 0)"
proof -
  have "position (handler RestartSim s) = (0, 0)"
    by (simp add: handleRestartSim_def position_def)
  then show ?thesis
    by (simp add: posLe_run position_step)
qed

theorem position_never_decreases_except_restart_witness:
  "RestartSim \<notin> set [ImageLoad, HotspotClick, HotspotClick, TimeoutFires 0, ImageLoad, Tick]
   \<and> posLe (position (sessionStarted twoSlides))
         (position (run [ImageLoad, HotspotClick, HotspotClick, TimeoutFires 0, ImageLoad, Tick]
                     (sessionStarted twoSlides)))
   \<and> position (run [ImageLoad, HotspotClick, HotspotClick, TimeoutFires 0, ImageLoad, Tick]
                  (sessionStarted twoSlides)) = (1, 0)
   \<and> position (step RestartSim
         (run [ImageLoad, HotspotClick, HotspotClick, TimeoutFires 0, ImageLoad, Tick]
            (sessionStarted twoSlides))) = (0, 0)"
  using position_never_decreases_except_restart
    [of "[ImageLoad, HotspotClick, HotspotClick, TimeoutFires 0, ImageLoad, Tick]"
        "sessionStarted twoSlides"]
    position_never_decreases_except_restart
    [of "[]" "run [ImageLoad, HotspotClick, HotspotClick, TimeoutFires 0, ImageLoad, Tick]
            (sessionStarted twoSlides)"]
  by code_simp

section \<open>C3: two clicks on a checkbox\<close>

text \<open>A click on a checkbox that the guards let through.\<close>

lemma step_click_checkbox:
  assumes "currentItem s = Some it" "itemType it = ''hotspot''"
    "hotspotKind it = ''checkbox''" "isStarted s" "\<not> isProcessing s" "\<not> isPaused s"
  shows "step HotspotClick s
    = s\<lparr>checkboxChecked := True, pending := pending s @ [newTimer 800 CheckboxDone s]\<rparr>"
proof -
  have "handleHotspotClick s
    = s\<lparr>checkboxChecked := True, pending := pending s @ [newTimer 800 CheckboxDone s]\<rparr>"
    using assms by (simp add: handleHotspotClick_def)
  then show ?thesis by (simp add: step_def afterRender_no_dep)
qed

text \<open>
  C3. Of two clicks on the same checkbox, the second arriving before the 0.8 s delay of
  the first has elapsed, only the first is to advance the sequence. The handler does not
  hold \<^verbatim>\<open>isProcessing\<close> during the delay, so the second click passes the same guards
  and schedules a second advance. With a checkbox current, its guards
  open, no timeout pending and another item behind it on the slide: one click and its
  timeout move the sequence index by one; two clicks and their two timeouts move it by
  two. Both timeouts carry the delay of 800 ms.
\<close>

theorem checkbox_second_click_advances_again:
  assumes "currentItem s = Some it" and "itemType it = ''hotspot''"
    and "hotspotKind it = ''checkbox''"
    and "isStarted s" and "\<not> isProcessing s" and "\<not> isPaused s"
    and "pending s = []"
    and "currentSequenceIndex s + 2 \<le> length (currentSequence s)"
  shows "position (run [HotspotClick, TimeoutFires 0] s)
           = (currentSlideIndex s, currentSequenceIndex s + 1)
       \<and> map delayMs (pending (run [HotspotClick, HotspotClick] s)) = [800, 800]
       \<and> position (run [HotspotClick, HotspotClick, TimeoutFires 0, TimeoutFires 0] s)
           = (currentSlideIndex s, currentSequenceIndex s + 2)"
proof -
  define t where "t = newTimer 800 CheckboxDone s"
  define s1 where "s1 = s\<lparr>checkboxChecked := True, pending := [t]\<rparr>"
  define s2 where "s2 = s1\<lparr>checkboxChecked := True, pending := [t, t]\<rparr>"
  define s3 where "s3 = step (TimeoutFires 0) s2"
  have t: "seenSlide t = currentSlideIndex s" "seenSeq t = currentSequenceIndex s"
    "delayMs t = 800"
    by (simp_all add: t_def newTimer_def)
  have more: "int (currentSequenceIndex s)
      < int (length (sequenceAt (slidesData s) (currentSlideIndex s))) - 1"
    using assms(8) by (simp add: currentSequence_def)
  have proj1: "currentItem s1 = currentItem s" "isStarted s1 = isStarted s"
    "isProcessing s1 = isProcessing s" "isPaused s1 = isPaused s" "pending s1 = [t]"
    "newTimer 800 CheckboxDone s1 = t" "slidesData s1 = slidesData s"
    "position s1 = position s"
    by (simp_all add: s1_def t_def currentItem_def currentSequence_def newTimer_def
          position_def)
  have proj2: "pending s2 = [t, t]" "slidesData s2 = slidesData s"
    "position s2 = position s"
    using proj1(7,8) by (simp_all add: s2_def position_def)
  have st1: "step HotspotClick s = s1"
    using step_click_checkbox [OF assms(1-6)] assms(7) by (simp add: s1_def t_def)
  have st2: "step HotspotClick s1 = s2"
    using step_click_checkbox [of s1 it] assms(1-6) by (simp add: proj1 s2_def)
  have mv: "position (moveToNextItem (currentSlideIndex s) (currentSequenceIndex s) x)
      = (currentSlideIndex x, currentSequenceIndex x + 1)" if "slidesData x = slidesData s" for x
    using more that by (simp add: moveToNextItem_def position_def)
  have one: "position (step (TimeoutFires 0) s1)
      = (currentSlideIndex s, currentSequenceIndex s + 1)"
    using position_timeoutFires [of 0 s1] mv [of s1] proj1
    by (simp add: t position_def)
  have p3: "position s3 = (currentSlideIndex s, currentSequenceIndex s + 1)"
    using position_timeoutFires [of 0 s2] mv [of s2] proj2
    by (simp add: s3_def t position_def)
  have "pending (handler (TimeoutFires 0) s2) = [t]"
    by (cases "callback t")
       (simp_all add: proj2 timeoutFires_def fire_def Let_def moveToNextItem_def)
  then obtain ts where pend3: "pending s3 = t # ts"
    using pending_afterRender [of s2 "handler (TimeoutFires 0) s2"]
    by (auto simp: s3_def step_def)
  have sl3: "slidesData s3 = slidesData s"
    by (simp add: s3_def slidesData_step proj2)
  have two: "position (step (TimeoutFires 0) s3)
      = (currentSlideIndex s, currentSequenceIndex s + 2)"
    using position_timeoutFires [of 0 s3] mv [OF sl3] p3
    by (simp add: pend3 t position_def)
  have "map delayMs (pending s2) = [800, 800]"
    by (simp add: proj2 t)
  with one two show ?thesis
    by (simp add: st1 st2 s3_def)
qed

theorem checkbox_second_click_advances_again_witness:
  "position (run [ImageLoad] (sessionStarted checkboxFirst)) = (0, 0)
   \<and> position (run [HotspotClick, TimeoutFires 0]
        (run [ImageLoad] (sessionStarted checkboxFirst))) = (0, 1)
   \<and> position (run [HotspotClick, HotspotClick, TimeoutFires 0, TimeoutFires 0]
        (run [ImageLoad] (sessionStarted checkboxFirst))) = (0, 2)"
proof -
  let ?s = "run [ImageLoad] (sessionStarted checkboxFirst)"
  have "currentItem ?s = Some (hotspotItem ''checkbox'' None)"
    and "itemType (hotspotItem ''checkbox'' None) = ''hotspot''"
    and "hotspotKind (hotspotItem ''checkbox'' None) = ''checkbox''"
    and "isStarted ?s" and "\<not> isProcessing ?s" and "\<not> isPaused ?s"
    and "pending ?s = []"
    and "currentSequenceIndex ?s + 2 \<le> length (currentSequence ?s)"
    and "position ?s = (0, 0)"
    by code_simp+
  from checkbox_second_click_advances_again [OF this(1-8)] this(9)
  show ?thesis by (simp add: position_def)
qed

section \<open>C4: the elapsed seconds\<close>

lemma elapsedTime_moveToNextItem: "elapsedTime (moveToNextItem a b s) = elapsedTime s"
  by (simp add: moveToNextItem_def)

lemma elapsedTime_fire: "elapsedTime (fire t s) = elapsedTime s"
  by (cases "callback t") (simp_all add: fire_def Let_def elapsedTime_moveToNextItem)

lemma elapsedTime_handleHotspotClick: "elapsedTime (handleHotspotClick s) = elapsedTime s"
  by (simp add: handleHotspotClick_def moveToNextItemNow_def elapsedTime_moveToNextItem
        split: option.splits)

lemma elapsedTime_handler:
  "e \<noteq> RestartSim \<Longrightarrow>
   elapsedTime (handler e s)
     = elapsedTime s + (if e = Tick \<and> isStarted s \<and> \<not> isPaused s then 1 else 0)"
proof (cases e)
  case HotspotClick
  then show ?thesis by (simp add: elapsedTime_handleHotspotClick)
next
  case (TimeoutFires n)
  then show ?thesis by (simp add: timeoutFires_def elapsedTime_fire)
next
  case (EndReply reply)
  then show ?thesis
    by (simp add: handleEndChatReply_def Let_def
          split: list.splits end_reply.splits option.splits)
qed (simp_all add: handleDropdownSelect_def handleTextInputSubmit_def moveToNextItemNow_def
      elapsedTime_moveToNextItem handleSubmitMessage_def handleKeyPress_def togglePause_def
      tick_def handleImageLoad_def handleEndChat_def handleViewPlayback_def Let_def
      split: option.splits)

lemma elapsedTime_step:
  "e \<noteq> RestartSim \<Longrightarrow>
   elapsedTime (step e s)
     = elapsedTime s + (if e = Tick \<and> isStarted s \<and> \<not> isPaused s then 1 else 0)"
  by (simp add: step_def afterRender_frame elapsedTime_handler)

lemma elapsedTime_run:
  "RestartSim \<notin> set evs \<Longrightarrow> elapsedTime (run evs s) = elapsedTime s + playingTicks evs s"
proof (induction evs arbitrary: s)
  case Nil
  show ?case by simp
next
  case (Cons e es)
  from Cons.prems have e: "e \<noteq> RestartSim" and es: "RestartSim \<notin> set es" by auto
  have "elapsedTime (run (e # es) s) = elapsedTime (step e s) + playingTicks es (step e s)"
    using Cons.IH [OF es, of "step e s"] by simp
  also have "\<dots> = elapsedTime s + playingTicks (e # es) s"
    using elapsedTime_step [OF e, of s] by simp
  finally show ?case .
qed

lemma isPaused_moveToNextItem: "isPaused (moveToNextItem a b s) = isPaused s"
  by (simp add: moveToNextItem_def)

lemma isPaused_fire: "isPaused (fire t s) = isPaused s"
  by (cases "callback t") (simp_all add: fire_def Let_def isPaused_moveToNextItem)

lemma isPaused_handler: "e \<noteq> TogglePause \<Longrightarrow> isPaused (handler e s) = isPaused s"
proof (cases e)
  case HotspotClick
  then show ?thesis
    by (simp add: handleHotspotClick_def moveToNextItemNow_def isPaused_moveToNextItem
          split: option.splits)
next
  case (TimeoutFires n)
  then show ?thesis by (simp add: timeoutFires_def isPaused_fire)
next
  case (EndReply reply)
  then show ?thesis
    by (simp add: handleEndChatReply_def Let_def
          split: list.splits end_reply.splits option.splits)
qed (simp_all add: handleDropdownSelect_def handleTextInputSubmit_def moveToNextItemNow_def
      isPaused_moveToNextItem handleSubmitMessage_def handleKeyPress_def
      tick_def handleImageLoad_def handleEndChat_def handleViewPlayback_def
      handleRestartSim_def Let_def split: option.splits)

lemma isPaused_step: "e \<noteq> TogglePause \<Longrightarrow> isPaused (step e s) = isPaused s"
  by (simp add: step_def afterRender_frame isPaused_handler)

lemma isPaused_step_TogglePause: "isPaused (step TogglePause s) = (\<not> isPaused s)"
  by (simp add: step_def afterRender_frame togglePause_def)

text \<open>While the session stays paused, no interval firing counts.\<close>

lemma paused_run:
  "isPaused s \<Longrightarrow> TogglePause \<notin> set evs \<Longrightarrow>
   isPaused (run evs s) \<and> playingTicks evs s = 0"
proof (induction evs arbitrary: s)
  case Nil
  then show ?case by simp
next
  case (Cons e es)
  from Cons.prems have "e \<noteq> TogglePause" and "TogglePause \<notin> set es" by auto
  moreover from this Cons.prems have "isPaused (step e s)" by (simp add: isPaused_step)
  ultimately show ?case using Cons.IH [of "step e s"] Cons.prems(1) by simp
qed

lemma playingTicks_append:
  "playingTicks (xs @ ys) s = playingTicks xs s + playingTicks ys (run xs s)"
  by (induction xs arbitrary: s) simp_all

text \<open>
  C4. One interval firing adds exactly 1 to the elapsed seconds when the session is
  started and not paused, and nothing otherwise; over any run without a restart the
  elapsed seconds grow by the number of firings that arrive while the session is started
  and not paused, every other event leaving them alone. Between a pause and the matching
  resume the counter is frozen: after pause, any events without a further toggle, and
  resume, it is what it was before the pause.
\<close>

theorem elapsed_time_counts_playing_ticks_only:
  "elapsedTime (step Tick s)
     = (if isStarted s \<and> \<not> isPaused s then elapsedTime s + 1 else elapsedTime s)
   \<and> (RestartSim \<notin> set evs \<longrightarrow>
        elapsedTime (run evs s) = elapsedTime s + playingTicks evs s)
   \<and> (RestartSim \<notin> set evs \<and> TogglePause \<notin> set evs \<and> \<not> isPaused s \<longrightarrow>
        elapsedTime (run (TogglePause # evs @ [TogglePause]) s) = elapsedTime s
        \<and> \<not> isPaused (run (TogglePause # evs @ [TogglePause]) s))"
proof (intro conjI impI)
  show "elapsedTime (step Tick s)
     = (if isStarted s \<and> \<not> isPaused s then elapsedTime s + 1 else elapsedTime s)"
    using elapsedTime_step [of Tick s] by simp
next
  assume "RestartSim \<notin> set evs"
  then show "elapsedTime (run evs s) = elapsedTime s + playingTicks evs s"
    by (rule elapsedTime_run)
next
  assume a: "RestartSim \<notin> set evs \<and> TogglePause \<notin> set evs \<and> \<not> isPaused s"
  let ?p = "step TogglePause s"
  have p: "isPaused ?p" using a by (simp add: isPaused_step_TogglePause)
  have frozen: "isPaused (run evs ?p)" "playingTicks evs ?p = 0"
    using paused_run [OF p, of evs] a by simp_all
  have "playingTicks (TogglePause # evs @ [TogglePause]) s = 0"
    using frozen by (simp add: playingTicks_append)
  moreover have "RestartSim \<notin> set (TogglePause # evs @ [TogglePause])"
    using a by simp
  ultimately show "elapsedTime (run (TogglePause # evs @ [TogglePause]) s) = elapsedTime s"
    using elapsedTime_run [of "TogglePause # evs @ [TogglePause]" s] by simp
  show "\<not> isPaused (run (TogglePause # evs @ [TogglePause]) s)"
    using frozen by (simp add: run_append isPaused_step_TogglePause)
qed

theorem elapsed_time_counts_playing_ticks_only_witness:
  "RestartSim \<notin> set [Tick, HotspotClick, Tick]
   \<and> TogglePause \<notin> set [Tick, HotspotClick, Tick]
   \<and> \<not> isPaused (run [ImageLoad, Tick, Tick] (sessionStarted twoSlides))
   \<and> elapsedTime (run [ImageLoad, Tick, Tick] (sessionStarted twoSlides)) = 2
   \<and> elapsedTime (run (TogglePause # [Tick, HotspotClick, Tick] @ [TogglePause])
        (run [ImageLoad, Tick, Tick] (sessionStarted twoSlides))) = 2
   \<and> elapsedTime (run [Tick, HotspotClick, Tick]
        (run [ImageLoad, Tick, Tick] (sessionStarted twoSlides))) = 4"
  using elapsed_time_counts_playing_ticks_only
    [of "run [ImageLoad, Tick, Tick] (sessionStarted twoSlides)" "[Tick, HotspotClick, Tick]"]
  by code_simp

section \<open>C5: timeouts of hotspots\<close>

text \<open>
  C5. Let a hotspot with a positive \<^verbatim>\<open>timeoutDuration\<close> \<open>t\<close> be entered while the session
  is started, not paused, the image loaded and no item being processed. If its kind is
  none of button, dropdown and checkbox, the entry schedules one timeout of \<open>t * 1000\<close>
  milliseconds whose callback is the advance. If its kind is one of the three (a missing
  kind counts as button), the entry schedules nothing and leaves \<^verbatim>\<open>isProcessing\<close>
  clear for the click; when no older timeout is pending, no sequence of interval firings,
  timeout firings and image loads moves the position.
\<close>

theorem hotspot_timeout_advances_except_button_dropdown_checkbox:
  assumes "enters prev r" and "currentItem r = Some it" and "itemType it = ''hotspot''"
    and "itemTimeout it = Some t" and "0 < t"
    and "\<not> isProcessing r" and "imageLoaded r" and "\<not> isPaused r" and "isStarted r"
  shows "(hotspotKind it \<noteq> ''button'' \<and> hotspotKind it \<noteq> ''dropdown''
            \<and> hotspotKind it \<noteq> ''checkbox'' \<longrightarrow>
          pending (afterRender prev r) = pending r @ [hotspotTimer t r]
          \<and> delayMs (hotspotTimer t r) = t * 1000
          \<and> position (fire (hotspotTimer t r) x)
              = position (moveToNextItem (currentSlideIndex r) (currentSequenceIndex r) x))
       \<and> (hotspotKind it = ''button'' \<or> hotspotKind it = ''dropdown''
            \<or> hotspotKind it = ''checkbox'' \<longrightarrow>
          pending (afterRender prev r) = pending r
          \<and> \<not> isProcessing (afterRender prev r)
          \<and> (pending r = [] \<and> (\<forall>e \<in> set evs. clockEvent e) \<longrightarrow>
               position (run evs (afterRender prev r)) = position r))"
proof -
  obtain s2 where s2: "afterRender prev r = processItem it r s2" "pending s2 = pending r"
    "position s2 = position r" "imageLoaded s2 = imageLoaded r"
    using afterRender_enter [OF assms(1,2,6-9)] by blast
  have timed: "pending (processItem it r s2) = pending s2 @ [hotspotTimer t r]"
    if "hotspotKind it \<noteq> ''button''" "hotspotKind it \<noteq> ''dropdown''"
      "hotspotKind it \<noteq> ''checkbox''"
    using that assms(3-5) by (simp add: processItem_def hotspotTimer_def)
  have untimed: "pending (processItem it r s2) = pending s2"
    "\<not> isProcessing (processItem it r s2)"
    if "hotspotKind it = ''button'' \<or> hotspotKind it = ''dropdown''
      \<or> hotspotKind it = ''checkbox''"
    using that assms(3-5) by (auto simp: processItem_def)
  have pos: "position (processItem it r s2) = position r"
    by (simp add: position_def processItem_frame s2(3) [unfolded position_def, simplified])
  have img: "imageLoaded (processItem it r s2)"
    by (simp add: processItem_frame s2(4) assms(7))
  have quiet: "position (run evs (processItem it r s2)) = position r"
    if "pending (processItem it r s2) = []" "\<forall>e \<in> set evs. clockEvent e"
    using clockEvent_run [OF that(2,1) img] pos by simp
  show ?thesis
    using timed untimed quiet
    by (auto simp: s2(1,2) position_fire hotspotTimer_def newTimer_def)
qed

theorem hotspot_timeout_advances_except_button_dropdown_checkbox_witness:
  "pending (run [ImageLoad] (sessionStarted timedSlides))
     = [\<lparr>delayMs = 5000, callback = HotspotTimeoutDone, seenSlide = 0, seenSeq = 0\<rparr>]
   \<and> position (run [ImageLoad, Tick, TimeoutFires 0] (sessionStarted timedSlides)) = (0, 1)
   \<and> pending (run [ImageLoad, Tick, TimeoutFires 0] (sessionStarted timedSlides)) = []
   \<and> position (run [Tick, TimeoutFires 0, Tick]
        (run [ImageLoad, Tick, TimeoutFires 0] (sessionStarted timedSlides))) = (0, 1)"
proof -
  let ?prev = "sessionStarted timedSlides"
  let ?r = "handler ImageLoad ?prev"
  let ?hl = "hotspotItem ''highlight'' (Some \<lparr>timeoutDuration = Some 5, advanceOnSelect = None\<rparr>)"
  have a: "enters ?prev ?r" "currentItem ?r = Some ?hl" "itemType ?hl = ''hotspot''"
    "itemTimeout ?hl = Some 5" "(0::rat) < 5"
    "\<not> isProcessing ?r" "imageLoaded ?r" "\<not> isPaused ?r" "isStarted ?r"
    "hotspotKind ?hl \<noteq> ''button''" "hotspotKind ?hl \<noteq> ''dropdown''"
    "hotspotKind ?hl \<noteq> ''checkbox''" "pending ?r = []"
    by code_simp+
  let ?prev2 = "run [ImageLoad, Tick] (sessionStarted timedSlides)"
  let ?r2 = "handler (TimeoutFires 0) ?prev2"
  let ?cb = "hotspotItem ''checkbox'' (Some \<lparr>timeoutDuration = Some 5, advanceOnSelect = None\<rparr>)"
  have b: "enters ?prev2 ?r2" "currentItem ?r2 = Some ?cb" "itemType ?cb = ''hotspot''"
    "itemTimeout ?cb = Some 5" "(0::rat) < 5"
    "\<not> isProcessing ?r2" "imageLoaded ?r2" "\<not> isPaused ?r2" "isStarted ?r2"
    "hotspotKind ?cb = ''checkbox''" "pending ?r2 = []" "position ?r2 = (0, 1)"
    "\<forall>e \<in> set [Tick, TimeoutFires 0, Tick]. clockEvent e"
    by code_simp+
  from hotspot_timeout_advances_except_button_dropdown_checkbox [OF a(1-9), of ?prev "[]"]
    hotspot_timeout_advances_except_button_dropdown_checkbox
      [OF b(1-9), of ?prev "[Tick, TimeoutFires 0, Tick]"]
  show ?thesis
    by code_simp
qed

section \<open>C6: messages\<close>








section \<open>C7: dropdowns\<close>

lemma step_DropdownSelect: "step (DropdownSelect option) s = handleDropdownSelect option s"
  by (simp add: step_def handleDropdownSelect_def Let_def afterRender_no_dep)

lemma step_click_dropdown:
  assumes "currentItem s = Some it" and "itemType it = ''hotspot''"
    and "hotspotKind it = ''dropdown''"
  shows "step HotspotClick s
    = (if isStarted s \<and> \<not> isProcessing s \<and> \<not> isPaused s
       then s\<lparr>dropdownOpen := \<not> dropdownOpen s\<rparr> else s)"
  using assms by (simp add: step_def handleHotspotClick_def afterRender_same afterRender_no_dep)

text \<open>
  C7. With a dropdown hotspot current: a click that passes the guards only flips
  \<^verbatim>\<open>dropdownOpen\<close>, a click that does not changes nothing, and neither moves the
  position nor schedules a timeout. A selection records the option, closes the dropdown
  and leaves the position where it is; it schedules the advance (one timeout of 500 ms
  whose callback is \<^verbatim>\<open>moveToNextItem\<close>) exactly when \<^verbatim>\<open>settings.advanceOnSelect\<close> is
  true. So with \<^verbatim>\<open>advanceOnSelect\<close> true and nothing else pending, the selection and
  its timeout bring the position to where the advance puts it; with
  \<^verbatim>\<open>advanceOnSelect\<close> not true, after the selection no sequence of interval firings,
  timeout firings and image loads moves the position.
\<close>

theorem dropdown_click_toggles_and_select_advances_iff_configured:
  assumes "currentItem s = Some it" and "itemType it = ''hotspot''"
    and "hotspotKind it = ''dropdown''"
  shows "step HotspotClick s
           = (if isStarted s \<and> \<not> isProcessing s \<and> \<not> isPaused s
              then s\<lparr>dropdownOpen := \<not> dropdownOpen s\<rparr> else s)
       \<and> position (step HotspotClick s) = position s
       \<and> pending (step HotspotClick s) = pending s
       \<and> dropdownValue (step (DropdownSelect option) s) = option
       \<and> \<not> dropdownOpen (step (DropdownSelect option) s)
       \<and> position (step (DropdownSelect option) s) = position s
       \<and> pending (step (DropdownSelect option) s)
           = (if advancesOnSelect (Some it) then pending s @ [newTimer 500 SelectDone s]
              else pending s)
       \<and> fire (newTimer 500 SelectDone s) x
           = moveToNextItem (currentSlideIndex s) (currentSequenceIndex s) x
       \<and> (pending s = [] \<and> advancesOnSelect (Some it) \<longrightarrow>
            position (run [DropdownSelect option, TimeoutFires 0] s)
              = position (moveToNextItemNow s))
       \<and> (pending s = [] \<and> \<not> advancesOnSelect (Some it) \<and> imageLoaded s
            \<and> (\<forall>e \<in> set evs. clockEvent e) \<longrightarrow>
            position (run (DropdownSelect option # evs) s) = position s)"
proof -
  let ?c = "step HotspotClick s"
  let ?d = "step (DropdownSelect option) s"
  have click: "?c = (if isStarted s \<and> \<not> isProcessing s \<and> \<not> isPaused s
              then s\<lparr>dropdownOpen := \<not> dropdownOpen s\<rparr> else s)"
    by (rule step_click_dropdown [OF assms])
  have click': "position ?c = position s" "pending ?c = pending s"
    by (simp_all add: click position_def)
  have sel: "dropdownValue ?d = option" "\<not> dropdownOpen ?d" "position ?d = position s"
    "slidesData ?d = slidesData s" "imageLoaded ?d = imageLoaded s"
    "pending ?d = (if advancesOnSelect (Some it) then pending s @ [newTimer 500 SelectDone s]
              else pending s)"
    using assms(1)
    by (simp_all add: step_DropdownSelect handleDropdownSelect_def Let_def position_def)
  have fired: "fire (newTimer 500 SelectDone s) x
      = moveToNextItem (currentSlideIndex s) (currentSequenceIndex s) x"
    by (simp add: fire_def newTimer_def)
  have adv: "position (run [DropdownSelect option, TimeoutFires 0] s)
      = position (moveToNextItemNow s)"
    if "pending s = []" "advancesOnSelect (Some it)"
  proof -
    have "pending ?d = [newTimer 500 SelectDone s]"
      using that by (simp add: sel(6))
    then have "position (step (TimeoutFires 0) ?d)
      = position (moveToNextItem (currentSlideIndex s) (currentSequenceIndex s) ?d)"
      using position_timeoutFires [of 0 ?d] by (simp add: newTimer_def)
    also have "\<dots> = position (moveToNextItemNow s)"
      unfolding moveToNextItemNow_def
      by (rule position_moveToNextItem_cong [OF sel(4,3)])
    finally show ?thesis by simp
  qed
  have stay: "position (run (DropdownSelect option # evs) s) = position s"
    if "pending s = []" "\<not> advancesOnSelect (Some it)" "imageLoaded s"
      "\<forall>e \<in> set evs. clockEvent e"
  proof -
    have "pending ?d = []" "imageLoaded ?d"
      using that by (simp_all add: sel(5,6))
    from clockEvent_run [OF that(4) this] show ?thesis
      by (simp add: sel(3))
  qed
  show ?thesis
    using click click' sel(1,2,3,6) fired adv stay by blast
qed

theorem dropdown_click_toggles_and_select_advances_iff_configured_witness:
  "position (run [ImageLoad, HotspotClick] (sessionStarted dropdownSlides)) = (0, 1)
   \<and> dropdownOpen (run [ImageLoad, HotspotClick, HotspotClick] (sessionStarted dropdownSlides))
   \<and> position (run [ImageLoad, HotspotClick, HotspotClick] (sessionStarted dropdownSlides))
       = (0, 1)
   \<and> dropdownValue (run [ImageLoad, HotspotClick, HotspotClick, DropdownSelect ''A'']
        (sessionStarted dropdownSlides)) = ''A''
   \<and> position (run [ImageLoad, HotspotClick, HotspotClick, DropdownSelect ''A'']
        (sessionStarted dropdownSlides)) = (0, 1)
   \<and> position (run [ImageLoad, HotspotClick, HotspotClick, DropdownSelect ''A'', TimeoutFires 0]
        (sessionStarted dropdownSlides)) = (0, 2)
   \<and> pending (run [ImageLoad, HotspotClick, HotspotClick, DropdownSelect ''A'', TimeoutFires 0]
        (sessionStarted dropdownSlides)) = []
   \<and> position (run [ImageLoad, HotspotClick, HotspotClick, DropdownSelect ''A'', TimeoutFires 0,
                     HotspotClick, DropdownSelect ''B'', Tick, TimeoutFires 0, Tick]
        (sessionStarted dropdownSlides)) = (0, 2)"
proof -
  let ?s = "run [ImageLoad, HotspotClick] (sessionStarted dropdownSlides)"
  let ?it = "hotspotItem ''dropdown''
          (Some \<lparr>timeoutDuration = None, advanceOnSelect = Some True\<rparr>)"
  have a: "currentItem ?s = Some ?it" "itemType ?it = ''hotspot''"
    "hotspotKind ?it = ''dropdown''"
    by code_simp+
  let ?s2 = "run [ImageLoad, HotspotClick, HotspotClick, DropdownSelect ''A'', TimeoutFires 0]
    (sessionStarted dropdownSlides)"
  let ?it2 = "hotspotItem ''dropdown''
          (Some \<lparr>timeoutDuration = None, advanceOnSelect = Some False\<rparr>)"
  have b: "currentItem ?s2 = Some ?it2" "itemType ?it2 = ''hotspot''"
    "hotspotKind ?it2 = ''dropdown''"
    by code_simp+
  from dropdown_click_toggles_and_select_advances_iff_configured
      [OF a, where option = "''A''" and x = ?s and evs = "[]"]
    dropdown_click_toggles_and_select_advances_iff_configured
      [OF b, where option = "''B''" and x = ?s2 and evs = "[Tick, TimeoutFires 0, Tick]"]
  show ?thesis
    by code_simp
qed

section \<open>C8, C9, C10: ending the session\<close>

lemma endFields_moveToNextItem:
  "isEndingChat (moveToNextItem a b s) = isEndingChat s"
  "endRequests (moveToNextItem a b s) = endRequests s"
  "endOutstanding (moveToNextItem a b s) = endOutstanding s"
  by (simp_all add: moveToNextItem_def)

lemma endFields_fire:
  "isEndingChat (fire t s) = isEndingChat s"
  "endRequests (fire t s) = endRequests s"
  "endOutstanding (fire t s) = endOutstanding s"
  by (cases "callback t"; simp add: fire_def Let_def endFields_moveToNextItem)+

text \<open>While an end is under way, only its reply touches the bookkeeping of end requests.\<close>

lemma endFields_handler:
  assumes "\<not> isEndReply e" and "isEndingChat s"
  shows "isEndingChat (handler e s) \<and> endRequests (handler e s) = endRequests s
    \<and> endOutstanding (handler e s) = endOutstanding s"
proof (cases e)
  case HotspotClick
  then show ?thesis using assms
    by (simp add: handleHotspotClick_def moveToNextItemNow_def endFields_moveToNextItem
          split: option.splits)
next
  case (TimeoutFires n)
  then show ?thesis using assms by (simp add: timeoutFires_def endFields_fire)
next
  case (EndReply reply)
  then show ?thesis using assms by simp
qed (use assms in \<open>simp_all add: handleDropdownSelect_def handleTextInputSubmit_def
      moveToNextItemNow_def endFields_moveToNextItem handleSubmitMessage_def
      handleKeyPress_def togglePause_def tick_def handleImageLoad_def handleEndChat_def
      handleViewPlayback_def handleRestartSim_def Let_def\<close>)

lemma endFields_step:
  assumes "\<not> isEndReply e" and "isEndingChat s"
  shows "isEndingChat (step e s) \<and> endRequests (step e s) = endRequests s
    \<and> endOutstanding (step e s) = endOutstanding s"
  using endFields_handler [OF assms] by (simp add: step_def afterRender_frame)

lemma endFields_run:
  "\<forall>e \<in> set evs. \<not> isEndReply e \<Longrightarrow> isEndingChat s \<Longrightarrow>
   isEndingChat (run evs s) \<and> endRequests (run evs s) = endRequests s"
proof (induction evs arbitrary: s)
  case Nil
  then show ?case by simp
next
  case (Cons e es)
  then have "\<not> isEndReply e" by simp
  from endFields_step [OF this Cons.prems(2)] Cons.IH [of "step e s"] Cons.prems(1)
  show ?case by simp
qed

text \<open>The end call that passes its guards and finds a progress id.\<close>

lemma handleEndChat_sends:
  assumes "\<not> isEndingChat s" and "userId s \<noteq> []" and "simulationProgressId s = Some pid"
    and "pid \<noteq> []"
  shows "handleEndChat s
    = s\<lparr>isEndingChat := True, timerRef := False, isStarted := False,
        endRequests := endRequests s @ [endRequest s pid],
        endOutstanding := endOutstanding s @ [elapsedTime s]\<rparr>"
  using assms by (simp add: handleEndChat_def endRequest_def missingProgressId_def)

lemma step_EndChat_ignored: "isEndingChat s \<Longrightarrow> step EndChat s = s"
  by (simp add: step_def handleEndChat_def afterRender_same)

lemma step_EndReply: "step (EndReply reply) s = handleEndChatReply reply s"
proof -
  have "afterRender s (handleEndChatReply reply s) = handleEndChatReply reply s"
    by (rule afterRender_no_dep)
       (simp_all add: handleEndChatReply_def Let_def
          split: list.splits end_reply.splits option.splits)
  then show ?thesis by (simp add: step_def)
qed

text \<open>
  C8. Let the end be called while no end is under way, the user id is present and a
  non-empty progress id is recorded. The call sends one request and sets
  \<^verbatim>\<open>isEndingChat\<close>. A second call right after it changes nothing; more generally,
  through any sequence of events that does not deliver the reply (further end calls
  among them) the list of requests sent stays the one request longer. When the reply with scores arrives after
  two calls, the scores are stored, the completion screen is shown, no request is left
  outstanding, and a further reply event changes nothing.
\<close>

theorem second_end_call_is_ignored:
  assumes "\<not> isEndingChat s" and "userId s \<noteq> []" and "simulationProgressId s = Some pid"
    and "pid \<noteq> []"
  shows "endRequests (step EndChat s) = endRequests s @ [endRequest s pid]
       \<and> isEndingChat (step EndChat s)
       \<and> step EndChat (step EndChat s) = step EndChat s
       \<and> ((\<forall>e \<in> set evs. \<not> isEndReply e) \<longrightarrow>
            endRequests (run (EndChat # evs) s) = endRequests s @ [endRequest s pid]
            \<and> isEndingChat (run (EndChat # evs) s))
       \<and> (endOutstanding s = [] \<longrightarrow>
            scores (run [EndChat, EndChat, EndReply (EndReplied (Some sc) d)] s) = Some sc
            \<and> showCompletionScreen (run [EndChat, EndChat, EndReply (EndReplied (Some sc) d)] s)
            \<and> endOutstanding (run [EndChat, EndChat, EndReply (EndReplied (Some sc) d)] s) = []
            \<and> endRequests (run [EndChat, EndChat, EndReply (EndReplied (Some sc) d)] s)
                = endRequests s @ [endRequest s pid]
            \<and> step (EndReply reply) (run [EndChat, EndChat, EndReply (EndReplied (Some sc) d)] s)
                = run [EndChat, EndChat, EndReply (EndReplied (Some sc) d)] s)"
proof -
  let ?s1 = "step EndChat s"
  have s1: "endRequests ?s1 = endRequests s @ [endRequest s pid]" "isEndingChat ?s1"
    "endOutstanding ?s1 = endOutstanding s @ [elapsedTime s]"
    by (simp_all add: step_def afterRender_frame handleEndChat_sends [OF assms])
  have again: "step EndChat ?s1 = ?s1"
    by (rule step_EndChat_ignored [OF s1(2)])
  have others: "endRequests (run (EndChat # evs) s) = endRequests s @ [endRequest s pid]
      \<and> isEndingChat (run (EndChat # evs) s)" if "\<forall>e \<in> set evs. \<not> isEndReply e"
    using endFields_run [OF that s1(2)] s1(1) by simp
  let ?s3 = "run [EndChat, EndChat, EndReply (EndReplied (Some sc) d)] s"
  have s3: "?s3 = handleEndChatReply (EndReplied (Some sc) d) ?s1"
    by (simp add: again step_EndReply)
  have replied: "scores ?s3 = Some sc" "showCompletionScreen ?s3" "endOutstanding ?s3 = []"
    "endRequests ?s3 = endRequests s @ [endRequest s pid]"
    if "endOutstanding s = []"
    unfolding s3 using that s1 by (simp_all add: handleEndChatReply_def Let_def)
  have late: "step (EndReply reply) ?s3 = ?s3" if "endOutstanding s = []"
    using replied(3) [OF that] by (simp add: step_EndReply handleEndChatReply_def [of reply])
  show ?thesis
    using s1(1,2) again others replied late by blast
qed

theorem second_end_call_is_ignored_witness:
  "endRequests (run [ImageLoad, Tick] (sessionStarted twoSlides)) = []
   \<and> endRequests (run [ImageLoad, Tick, EndChat, EndChat] (sessionStarted twoSlides))
       = [\<lparr>user_id = ''user-1'', simulation_id = ''sim-1'',
           usersimulationprogress_id = ''progress-1''\<rparr>]
   \<and> endRequests (run [ImageLoad, Tick, EndChat, Tick, EndChat, HotspotClick, EndChat]
        (sessionStarted twoSlides))
       = [\<lparr>user_id = ''user-1'', simulation_id = ''sim-1'',
           usersimulationprogress_id = ''progress-1''\<rparr>]
   \<and> scores (run [ImageLoad, Tick, EndChat, EndChat, EndReply (EndReplied (Some (someScores 90)) (Some 12))]
        (sessionStarted twoSlides)) = Some (someScores 90)
   \<and> endOutstanding (run [ImageLoad, Tick, EndChat, EndChat,
        EndReply (EndReplied (Some (someScores 90)) (Some 12))] (sessionStarted twoSlides)) = []"
proof -
  let ?s = "run [ImageLoad, Tick] (sessionStarted twoSlides)"
  have a: "\<not> isEndingChat ?s" "userId ?s \<noteq> []" "simulationProgressId ?s = Some ''progress-1''"
    "''progress-1'' \<noteq> []"
    by code_simp+
  from second_end_call_is_ignored
      [OF a, where evs = "[Tick, EndChat, HotspotClick, EndChat]" and sc = "someScores 90"
        and d = "Some 12" and reply = EndFailed]
  show ?thesis
    by code_simp
qed




text \<open>
  C10. Let the end be called while no progress id is recorded (it is \<^verbatim>\<open>null\<close>, or
  empty). No request is sent, none
  becomes outstanding, and the completion screen and the scores are left as they were.
  When the two guards before it let the call through (no end under way, user id
  present), the handler has by then cleared the interval and \<^verbatim>\<open>isStarted\<close>, and gives
  only \<^verbatim>\<open>isEndingChat\<close> back: the session is left not started, and interval firings no
  longer add to the elapsed seconds.
\<close>

theorem end_without_progress_id_stops_session_without_result:
  assumes "missingProgressId s"
  shows "endRequests (step EndChat s) = endRequests s
       \<and> endOutstanding (step EndChat s) = endOutstanding s
       \<and> showCompletionScreen (step EndChat s) = showCompletionScreen s
       \<and> scores (step EndChat s) = scores s
       \<and> (\<not> isEndingChat s \<and> userId s \<noteq> [] \<longrightarrow>
            handleEndChat s = s\<lparr>isEndingChat := False, timerRef := False, isStarted := False\<rparr>
            \<and> \<not> timerRef (handleEndChat s)
            \<and> \<not> isStarted (step EndChat s)
            \<and> \<not> isEndingChat (step EndChat s)
            \<and> elapsedTime (run (EndChat # replicate n Tick) s) = elapsedTime s)"
proof -
  have quiet: "endRequests (step EndChat s) = endRequests s"
    "endOutstanding (step EndChat s) = endOutstanding s"
    "showCompletionScreen (step EndChat s) = showCompletionScreen s"
    "scores (step EndChat s) = scores s"
    using assms by (simp_all add: step_def afterRender_frame handleEndChat_def)
  have h: "handleEndChat s = s\<lparr>isEndingChat := False, timerRef := False, isStarted := False\<rparr>"
    if "\<not> isEndingChat s" "userId s \<noteq> []"
    using that assms by (simp add: handleEndChat_def)
  have stopped: "\<not> timerRef (handleEndChat s)" "\<not> isStarted (step EndChat s)"
    "\<not> isEndingChat (step EndChat s)" "elapsedTime (step EndChat s) = elapsedTime s"
    if "\<not> isEndingChat s" "userId s \<noteq> []"
    by (simp_all add: step_def afterRender_frame h [OF that])
  have frozen: "elapsedTime (run (EndChat # replicate n Tick) s) = elapsedTime s"
    if "\<not> isEndingChat s" "userId s \<noteq> []"
    using run_Ticks_stopped [OF stopped(2) [OF that], of n] stopped(4) [OF that] by simp
  show ?thesis
    using quiet h stopped(1-3) frozen by blast
qed

theorem end_without_progress_id_stops_session_without_result_witness:
  "simulationProgressId (run [ImageLoad, Tick] sessionWithoutProgressId) = None
   \<and> isStarted (run [ImageLoad, Tick] sessionWithoutProgressId)
   \<and> elapsedTime (run [ImageLoad, Tick] sessionWithoutProgressId) = 1
   \<and> \<not> isStarted (run [ImageLoad, Tick, EndChat] sessionWithoutProgressId)
   \<and> \<not> isEndingChat (run [ImageLoad, Tick, EndChat] sessionWithoutProgressId)
   \<and> endRequests (run [ImageLoad, Tick, EndChat] sessionWithoutProgressId) = []
   \<and> \<not> showCompletionScreen (run [ImageLoad, Tick, EndChat] sessionWithoutProgressId)
   \<and> scores (run [ImageLoad, Tick, EndChat] sessionWithoutProgressId) = None
   \<and> elapsedTime (run (EndChat # replicate 2 Tick)
        (run [ImageLoad, Tick] sessionWithoutProgressId)) = 1"
proof -
  let ?s = "run [ImageLoad, Tick] sessionWithoutProgressId"
  have a: "missingProgressId ?s"
    by code_simp
  from end_without_progress_id_stops_session_without_result [OF a, of 2]
  show ?thesis
    by code_simp
qed

end
